theory Spec2Isabelle
  imports Main
begin

section \<open>The JavaScript runtime the service relies on\<close>

text \<open>
  The service is one file, \<^verbatim>\<open>advertise/src/index.js\<close>. It calls a few functions of
  its runtime (Node's \<^verbatim>\<open>path\<close> module, number-to-string conversion, string slicing).
  They are embedded first, following Node's POSIX implementation statement by
  statement. Strings are \<^typ>\<open>string\<close>; indices are \<^typ>\<open>int\<close> because the runtime
  uses \<open>-1\<close> as "not found yet".
\<close>

subsection \<open>Numbers as strings\<close>

definition digit_char :: "nat \<Rightarrow> char" where
  "digit_char d = char_of (48 + d)"

text \<open>\<^verbatim>\<open>Date.now() + s\<close> concatenates the decimal rendering of a non-negative
  integer (milliseconds since the epoch) with \<open>s\<close>.\<close>

fun number_to_string :: "nat \<Rightarrow> string" where
  "number_to_string n =
     (if n < 10 then [digit_char n]
      else number_to_string (n div 10) @ [digit_char (n mod 10)])"

declare number_to_string.simps [simp del]

subsection \<open>String.prototype.slice\<close>

definition slice :: "string \<Rightarrow> int \<Rightarrow> int \<Rightarrow> string" where
  "slice s a b =
     (let n = int (length s);
          from = (if a < 0 then max (n + a) 0 else min a n);
          to = (if b < 0 then max (n + b) 0 else min b n)
      in take (nat (to - from)) (drop (nat from) s))"

subsection \<open>path.extname\<close>

record extname_state =
  startDot :: int
  startPart :: int
  ext_end :: int
  ext_matchedSlash :: bool
  preDotState :: int

text \<open>The loop \<^verbatim>\<open>for (let i = path.length - 1; i >= 0; --i)\<close>: the first argument
  holds the characters still to visit, last character of the path first, so the
  current index \<open>i\<close> is the number of characters after the head.\<close>

fun extname_loop :: "string \<Rightarrow> extname_state \<Rightarrow> extname_state" where
  "extname_loop [] st = st"
| "extname_loop (code # rest) st =
     (let i = int (length rest) in
      if code = CHR ''/'' then
        (if \<not> ext_matchedSlash st then st\<lparr>startPart := i + 1\<rparr>
         else extname_loop rest st)
      else
        (let st1 = (if ext_end st = -1
                    then st\<lparr>ext_matchedSlash := False, ext_end := i + 1\<rparr> else st);
             st2 = (if code = CHR ''.'' then
                      (if startDot st1 = -1 then st1\<lparr>startDot := i\<rparr>
                       else if preDotState st1 \<noteq> 1 then st1\<lparr>preDotState := 1\<rparr>
                       else st1)
                    else if startDot st1 \<noteq> -1 then st1\<lparr>preDotState := -1\<rparr>
                    else st1)
         in extname_loop rest st2))"

definition extname_init :: extname_state where
  "extname_init =
     \<lparr>startDot = -1, startPart = 0, ext_end = -1, ext_matchedSlash = True, preDotState = 0\<rparr>"

definition extname :: "string \<Rightarrow> string" where
  "extname path =
     (let st = extname_loop (rev path) extname_init in
      if startDot st = -1 \<or> ext_end st = -1 \<or> preDotState st = 0 \<or>
         (preDotState st = 1 \<and> startDot st = ext_end st - 1 \<and> startDot st = startPart st + 1)
      then []
      else slice path (startDot st) (ext_end st))"

subsection \<open>path.basename\<close>

record basename_state =
  base_start :: int
  base_end :: int
  base_matchedSlash :: bool
  extIdx :: int
  firstNonSlashEnd :: int

text \<open>The loop of \<^verbatim>\<open>basename\<close> taken when a non-empty suffix no longer than the
  path is given.\<close>

fun basename_suffix_loop :: "string \<Rightarrow> string \<Rightarrow> basename_state \<Rightarrow> basename_state" where
  "basename_suffix_loop suffix [] st = st"
| "basename_suffix_loop suffix (code # rest) st =
     (let i = int (length rest) in
      if code = CHR ''/'' then
        (if \<not> base_matchedSlash st then st\<lparr>base_start := i + 1\<rparr>
         else basename_suffix_loop suffix rest st)
      else
        (let st1 = (if firstNonSlashEnd st = -1
                    then st\<lparr>base_matchedSlash := False, firstNonSlashEnd := i + 1\<rparr>
                    else st);
             st2 = (if extIdx st1 \<ge> 0 then
                      (if code = suffix ! nat (extIdx st1) then
                         (let st' = st1\<lparr>extIdx := extIdx st1 - 1\<rparr>
                          in if extIdx st' = -1 then st'\<lparr>base_end := i\<rparr> else st')
                       else st1\<lparr>extIdx := -1, base_end := firstNonSlashEnd st1\<rparr>)
                    else st1)
         in basename_suffix_loop suffix rest st2))"

text \<open>The loop taken otherwise (no suffix, an empty one, or one longer than the path).\<close>

fun basename_plain_loop :: "string \<Rightarrow> basename_state \<Rightarrow> basename_state" where
  "basename_plain_loop [] st = st"
| "basename_plain_loop (code # rest) st =
     (let i = int (length rest) in
      if code = CHR ''/'' then
        (if \<not> base_matchedSlash st then st\<lparr>base_start := i + 1\<rparr>
         else basename_plain_loop rest st)
      else if base_end st = -1 then
        basename_plain_loop rest (st\<lparr>base_matchedSlash := False, base_end := i + 1\<rparr>)
      else basename_plain_loop rest st)"

definition basename :: "string \<Rightarrow> string \<Rightarrow> string" where
  "basename path suffix =
     (let st0 = \<lparr>base_start = 0, base_end = -1, base_matchedSlash = True,
                 extIdx = int (length suffix) - 1, firstNonSlashEnd = -1\<rparr> in
      if length suffix > 0 \<and> length suffix \<le> length path then
        (if suffix = path then []
         else
           (let st = basename_suffix_loop suffix (rev path) st0;
                e = (if base_start st = base_end st then firstNonSlashEnd st
                     else if base_end st = -1 then int (length path)
                     else base_end st)
            in slice path (base_start st) e))
      else
        (let st = basename_plain_loop (rev path) st0 in
         if base_end st = -1 then [] else slice path (base_start st) (base_end st)))"

section \<open>Collaborators of the service\<close>

text \<open>
  The identifier type, the database driver and the message broker are libraries and
  servers outside the repository. They are embedded by their documented behaviour, as
  far as the service calls them: the handlers of the next section are written against
  these operations.
\<close>

subsection \<open>Errors\<close>

text \<open>Every exception the handlers can meet is a value: \<open>BSONError\<close> is thrown by
  the \<^verbatim>\<open>ObjectId\<close> constructor, \<open>SyntaxError\<close> by \<^verbatim>\<open>JSON.parse\<close>,
  \<open>MongoDuplicateKey\<close> (E11000) and \<open>MongoNetworkError\<close> by the database driver.\<close>

datatype js_error = BSONError | SyntaxError | MongoDuplicateKey | MongoNetworkError

subsection \<open>mongodb.ObjectId\<close>

text \<open>An identifier is twelve bytes. The constructor generates a new identifier when
  its argument is \<^verbatim>\<open>undefined\<close>, takes a string of twelve characters as the bytes,
  decodes a string of twenty-four hexadecimal digits, and throws on every other string.\<close>

datatype ObjectId = ObjectId (id_bytes: string)

definition hex_value :: "char \<Rightarrow> nat option" where
  "hex_value c =
     (let n = (of_char c :: nat) in
      if 48 \<le> n \<and> n \<le> 57 then Some (n - 48)
      else if 97 \<le> n \<and> n \<le> 102 then Some (n - 87)
      else if 65 \<le> n \<and> n \<le> 70 then Some (n - 55)
      else None)"

fun fromHex :: "string \<Rightarrow> string option" where
  "fromHex [] = Some []"
| "fromHex [h] = None"
| "fromHex (h # l # rest) =
     (case (hex_value h, hex_value l, fromHex rest) of
        (Some a, Some b, Some bytes) \<Rightarrow> Some (char_of (16 * a + b) # bytes)
      | _ \<Rightarrow> None)"

definition hex_digit :: "nat \<Rightarrow> char" where
  "hex_digit n = ''0123456789abcdef'' ! n"

definition toHexString :: "ObjectId \<Rightarrow> string" where
  "toHexString oid =
     concat (map (\<lambda>c. [hex_digit (of_char c div 16), hex_digit (of_char c mod 16)])
               (id_bytes oid))"

definition isValid :: "string \<Rightarrow> bool" where
  "isValid s = (length s = 12 \<or> (length s = 24 \<and> fromHex s \<noteq> None))"

text \<open>\<^verbatim>\<open>new mongodb.ObjectId(inputId)\<close>; \<open>generated\<close> is the identifier the
  driver's generator yields at this call, \<open>None\<close> is \<^verbatim>\<open>undefined\<close>.\<close>

definition new_ObjectId :: "ObjectId \<Rightarrow> string option \<Rightarrow> js_error + ObjectId" where
  "new_ObjectId generated inputId =
     (case inputId of
        None \<Rightarrow> Inr generated
      | Some s \<Rightarrow>
          if length s = 12 then Inr (ObjectId s)
          else if length s = 24 then
            (case fromHex s of Some bytes \<Rightarrow> Inr (ObjectId bytes) | None \<Rightarrow> Inl BSONError)
          else Inl BSONError)"

subsection \<open>The collection of image documents\<close>

text \<open>A document of the collection \<^verbatim>\<open>images\<close>; \<open>doc_id\<close> is the field
  \<^verbatim>\<open>_id\<close>. A field that a document does not carry is \<open>None\<close>. The collection
  is the list of its documents, in insertion order.\<close>

record image_doc =
  doc_id :: ObjectId
  doc_imageUrl :: "string option"
  doc_uploadedAt :: "nat option"
  doc_url :: "string option"

text \<open>What the handling of one request or message takes from its surroundings: the
  identifier the driver would generate, the clock in milliseconds as \<^verbatim>\<open>Date.now()\<close>
  reads it in the storage callback and as \<^verbatim>\<open>new Date()\<close> reads it in the upload
  handler, and whether the database is reachable (\<open>Some e\<close>: every operation on it
  rejects with \<open>e\<close>).\<close>

record env =
  generated_id :: ObjectId
  date_now :: nat
  new_date :: nat
  db_fault :: "js_error option"

definition find_toArray :: "env \<Rightarrow> image_doc list \<Rightarrow> js_error + image_doc list" where
  "find_toArray e coll = (case db_fault e of Some err \<Rightarrow> Inl err | None \<Rightarrow> Inr coll)"

definition findOne :: "env \<Rightarrow> image_doc list \<Rightarrow> ObjectId \<Rightarrow> js_error + image_doc option" where
  "findOne e coll i =
     (case db_fault e of
        Some err \<Rightarrow> Inl err
      | None \<Rightarrow> Inr (find (\<lambda>d. doc_id d = i) coll))"

text \<open>\<^verbatim>\<open>insertOne\<close> is a plain insert: the unique index on \<^verbatim>\<open>_id\<close> rejects a
  document whose identifier is already in the collection.\<close>

definition insertOne :: "env \<Rightarrow> image_doc list \<Rightarrow> image_doc \<Rightarrow> js_error + image_doc list" where
  "insertOne e coll d =
     (case db_fault e of
        Some err \<Rightarrow> Inl err
      | None \<Rightarrow>
          if doc_id d \<in> set (map doc_id coll) then Inl MongoDuplicateKey
          else Inr (coll @ [d]))"

subsection \<open>The message broker\<close>

text \<open>The JSON object that travels in a message, after \<^verbatim>\<open>JSON.parse\<close>; a field
  that is absent is \<open>None\<close>. \<open>Malformed\<close> is a content that is not JSON.\<close>

record parsed_message =
  imageId :: "string option"
  imageUrl :: "string option"
  url :: "string option"
  uploadedAt :: "nat option"

datatype content = Json parsed_message | Malformed

text \<open>The broker as the channel sees it (AMQP 0-9-1): declared exchanges with their
  type, queues with their ready messages, bindings of queues to exchanges, the
  messages delivered to this channel's consumer and not acknowledged yet, and the log
  of what the channel was asked to publish (exchange, routing key, content), whether
  or not it reached a queue.\<close>

record broker =
  exchanges :: "string \<rightharpoonup> string"
  queues :: "string \<rightharpoonup> content list"
  bindings :: "(string \<times> string) list"
  unacked :: "content list"
  published :: "(string \<times> string \<times> content) list"

definition assertExchange :: "broker \<Rightarrow> string \<Rightarrow> string \<Rightarrow> broker" where
  "assertExchange b name kind = b\<lparr>exchanges := (exchanges b)(name \<mapsto> kind)\<rparr>"

text \<open>\<^verbatim>\<open>assertQueue("", {})\<close>: the broker names the queue; \<open>name\<close> is the name
  it chose.\<close>

definition assertQueue :: "broker \<Rightarrow> string \<Rightarrow> broker" where
  "assertQueue b name =
     (case queues b name of
        None \<Rightarrow> b\<lparr>queues := (queues b)(name \<mapsto> [])\<rparr>
      | Some _ \<Rightarrow> b)"

definition bindQueue :: "broker \<Rightarrow> string \<Rightarrow> string \<Rightarrow> broker" where
  "bindQueue b queue source = b\<lparr>bindings := bindings b @ [(queue, source)]\<rparr>"

definition enqueue :: "content \<Rightarrow> content list option \<Rightarrow> content list option" where
  "enqueue m q = (case q of None \<Rightarrow> None | Some ms \<Rightarrow> Some (ms @ [m]))"

text \<open>\<^verbatim>\<open>publish(exchange, routingKey, content)\<close>. The default exchange \<^verbatim>\<open>""\<close>
  routes to the queue whose name is the routing key and drops the message when there
  is none; a fanout exchange routes to every queue bound to it. (The service names no
  other exchange; for one, the queues are left as they are.)\<close>

definition route :: "broker \<Rightarrow> string \<Rightarrow> string \<Rightarrow> content \<Rightarrow> string \<rightharpoonup> content list" where
  "route b exchange routingKey m =
     (if exchange = [] then
        (\<lambda>q. if q = routingKey then enqueue m (queues b q) else queues b q)
      else if exchanges b exchange = Some ''fanout'' then
        (\<lambda>q. if (q, exchange) \<in> set (bindings b) then enqueue m (queues b q) else queues b q)
      else queues b)"

definition publish :: "broker \<Rightarrow> string \<Rightarrow> string \<Rightarrow> content \<Rightarrow> broker" where
  "publish b exchange routingKey m =
     b\<lparr>queues := route b exchange routingKey m,
       published := published b @ [(exchange, routingKey, m)]\<rparr>"

text \<open>\<^verbatim>\<open>sendToQueue(queue, content)\<close> is \<^verbatim>\<open>publish("", queue, content)\<close>.\<close>

definition sendToQueue :: "broker \<Rightarrow> string \<Rightarrow> content \<Rightarrow> broker" where
  "sendToQueue b queue m = publish b [] queue m"

text \<open>The broker hands the consumer the oldest ready message of its queue and keeps
  it as unacknowledged until \<^verbatim>\<open>ack\<close>.\<close>

definition deliver :: "broker \<Rightarrow> string \<Rightarrow> (content \<times> broker) option" where
  "deliver b queue =
     (case queues b queue of
        Some (m # ms) \<Rightarrow>
          Some (m, b\<lparr>queues := (queues b)(queue \<mapsto> ms), unacked := unacked b @ [m]\<rparr>)
      | _ \<Rightarrow> None)"

definition ack :: "broker \<Rightarrow> content \<Rightarrow> broker" where
  "ack b m = b\<lparr>unacked := remove1 m (unacked b)\<rparr>"

section \<open>The service\<close>

text \<open>The state the handlers share: the collection \<^verbatim>\<open>imageCollection\<close>, the
  broker behind \<^verbatim>\<open>messageChannel\<close>, and the directory \<^verbatim>\<open>./uploads\<close> (file
  name to payload).\<close>

record world =
  images :: "image_doc list"
  channel :: broker
  uploads :: "string \<rightharpoonup> string"

datatype body =
    NoBody
  | ImagesBody "image_doc list"
  | ImageBody image_doc
  | UploadedBody string image_doc
  | ErrorBody string

record response =
  status :: nat
  body :: body

subsection \<open>Start-up: the exchange, the anonymous queue and its binding\<close>

text \<open>Lines 97 to 101; \<open>queue\<close> is the name the broker gave the anonymous queue.\<close>

definition startMicroservice :: "string \<Rightarrow> world \<Rightarrow> world" where
  "startMicroservice queue w =
     (let b1 = assertExchange (channel w) ''image-uploaded'' ''fanout'';
          b2 = assertQueue b1 queue;
          b3 = bindQueue b2 queue ''image-uploaded''
      in w\<lparr>channel := b3\<rparr>)"

subsection \<open>The upload middleware\<close>

record uploaded_file =
  originalname :: string
  filename :: string

text \<open>The \<^verbatim>\<open>filename\<close> callback of the disk storage:
  \<^verbatim>\<open>Date.now() + path.extname(file.originalname)\<close>.\<close>

definition storage_filename :: "nat \<Rightarrow> string \<Rightarrow> string" where
  "storage_filename now orig = number_to_string now @ extname orig"

text \<open>\<^verbatim>\<open>upload.single("image")\<close>: a request that carries a file (its original name
  and its payload) in the field has the payload written to the upload directory under
  the generated name and gets \<^verbatim>\<open>req.file\<close>; a request without one gets none.\<close>

definition upload_single ::
    "env \<Rightarrow> world \<Rightarrow> (string \<times> string) option \<Rightarrow> world \<times> uploaded_file option" where
  "upload_single e w field =
     (case field of
        None \<Rightarrow> (w, None)
      | Some (orig, payload) \<Rightarrow>
          (let name = storage_filename (date_now e) orig
           in (w\<lparr>uploads := (uploads w)(name \<mapsto> payload)\<rparr>,
               Some \<lparr>originalname = orig, filename = name\<rparr>)))"

subsection \<open>The routes\<close>

text \<open>A handler returns the response it sent, or the error with which its promise
  rejected before any response was sent.\<close>

definition get_images :: "env \<Rightarrow> world \<Rightarrow> js_error + response" where
  "get_images e w =
     (case find_toArray e (images w) of
        Inl err \<Rightarrow> Inl err
      | Inr imgs \<Rightarrow> Inr \<lparr>status = 200, body = ImagesBody imgs\<rparr>)"

text \<open>\<open>query_id\<close> is \<^verbatim>\<open>req.query.id\<close>: \<open>None\<close> when the request has no such
  parameter.\<close>

definition get_image :: "env \<Rightarrow> world \<Rightarrow> string option \<Rightarrow> js_error + response" where
  "get_image e w query_id =
     (case new_ObjectId (generated_id e) query_id of
        Inl err \<Rightarrow> Inl err
      | Inr image_id \<Rightarrow>
          (case findOne e (images w) image_id of
             Inl err \<Rightarrow> Inl err
           | Inr None \<Rightarrow> Inr \<lparr>status = 404, body = NoBody\<rparr>
           | Inr (Some img) \<Rightarrow> Inr \<lparr>status = 200, body = ImageBody img\<rparr>))"

text \<open>The handler of \<^verbatim>\<open>POST /upload\<close>, after the middleware. The driver gives the
  new document its \<^verbatim>\<open>_id\<close> (the generated identifier) while inserting, so the
  document of the response carries it, and \<^verbatim>\<open>result.insertedId\<close> is that
  identifier; \<^verbatim>\<open>JSON.stringify\<close> writes an identifier as its hexadecimal string.\<close>

definition post_upload ::
    "env \<Rightarrow> world \<Rightarrow> uploaded_file option \<Rightarrow> world \<times> (js_error + response)" where
  "post_upload e w req_file =
     (case req_file of
        None \<Rightarrow> (w, Inr \<lparr>status = 400, body = ErrorBody ''No image uploaded''\<rparr>)
      | Some f \<Rightarrow>
          (let filenameWithoutExtension = basename (originalname f) (extname (filename f));
               url_v = ''https://www.'' @ filenameWithoutExtension @ ''.com'';
               imageUrl_v = ''advertise/uploads/'' @ filename f;
               newImage = \<lparr>doc_id = generated_id e, doc_imageUrl = Some imageUrl_v,
                           doc_uploadedAt = Some (new_date e), doc_url = Some url_v\<rparr>
           in case insertOne e (images w) newImage of
                Inl err \<Rightarrow> (w, Inl err)
              | Inr coll \<Rightarrow>
                  (let message = \<lparr>imageId = Some (toHexString (doc_id newImage)),
                                    imageUrl = Some imageUrl_v, url = Some url_v,
                                    uploadedAt = None\<rparr>
                   in (w\<lparr>images := coll,
                         channel := sendToQueue (channel w) ''image-uploaded'' (Json message)\<rparr>,
                       Inr \<lparr>status = 201, body = UploadedBody ''Image uploaded'' newImage\<rparr>))))"

text \<open>The whole route: middleware, then handler.\<close>

definition upload_route ::
    "env \<Rightarrow> world \<Rightarrow> (string \<times> string) option \<Rightarrow> world \<times> (js_error + response)" where
  "upload_route e w field =
     (case upload_single e w field of (w1, req_file) \<Rightarrow> post_upload e w1 req_file)"

subsection \<open>The consumer\<close>

text \<open>\<^verbatim>\<open>consumeImageUploadedMessage\<close>: \<open>Inr ()\<close> when the function ran to its
  end, which is where it acknowledges; \<open>Inl err\<close> when it threw, which is before.\<close>

definition consumeImageUploadedMessage ::
    "env \<Rightarrow> world \<Rightarrow> content \<Rightarrow> world \<times> (js_error + unit)" where
  "consumeImageUploadedMessage e w msg =
     (case msg of
        Malformed \<Rightarrow> (w, Inl SyntaxError)
      | Json parsedMsg \<Rightarrow>
          (case new_ObjectId (generated_id e) (imageId parsedMsg) of
             Inl err \<Rightarrow> (w, Inl err)
           | Inr oid \<Rightarrow>
               (let imageMetadata = \<lparr>doc_id = oid, doc_imageUrl = imageUrl parsedMsg,
                                     doc_uploadedAt = None, doc_url = url parsedMsg\<rparr>
                in case insertOne e (images w) imageMetadata of
                     Inl err \<Rightarrow> (w, Inl err)
                   | Inr coll \<Rightarrow>
                       (w\<lparr>images := coll, channel := ack (channel w) msg\<rparr>, Inr ()))))"

text \<open>One step of consumption: the broker delivers the oldest ready message of the
  queue, if any, and the consumer handles it.\<close>

definition consume_step :: "env \<Rightarrow> world \<Rightarrow> string \<Rightarrow> (world \<times> (js_error + unit)) option" where
  "consume_step e w queue =
     (case deliver (channel w) queue of
        None \<Rightarrow> None
      | Some (msg, b) \<Rightarrow> Some (consumeImageUploadedMessage e (w\<lparr>channel := b\<rparr>) msg))"

subsection \<open>The display URL in the specification's words\<close>

text \<open>The original file name with its extension stripped, embedded in the fixed
  template.\<close>

definition strip_extension :: "string \<Rightarrow> string" where
  "strip_extension name = take (length name - length (extname name)) name"

definition spec_display_url :: "string \<Rightarrow> string" where
  "spec_display_url orig = ''https://www.'' @ strip_extension orig @ ''.com''"

subsection \<open>Concrete inputs\<close>

definition empty_broker :: broker where
  "empty_broker =
     \<lparr>exchanges = Map.empty, queues = Map.empty, bindings = [], unacked = [], published = []\<rparr>"

definition empty_world :: world where
  "empty_world = \<lparr>images = [], channel = empty_broker, uploads = Map.empty\<rparr>"

definition example_env :: env where
  "example_env =
     \<lparr>generated_id = ObjectId ''abcdefghijkl'', date_now = 1700000000000,
      new_date = 1700000000004, db_fault = None\<rparr>"

definition started_world :: world where
  "started_world = startMicroservice ''amq.gen-1'' empty_world"

definition example_message :: parsed_message where
  "example_message =
     \<lparr>imageId = Some ''6162636465666768696a6b6c'',
      imageUrl = Some ''advertise/uploads/1700000000000.png'',
      url = Some ''https://www.cat.com'', uploadedAt = None\<rparr>"

definition example_event :: content where
  "example_event = Json example_message"

definition delivered_world :: world where
  "delivered_world = empty_world\<lparr>channel := empty_broker\<lparr>unacked := [example_event]\<rparr>\<rparr>"

definition example_doc :: image_doc where
  "example_doc =
     \<lparr>doc_id = ObjectId ''abcdefghijkl'',
      doc_imageUrl = Some ''advertise/uploads/1700000000000.png'',
      doc_uploadedAt = None, doc_url = Some ''https://www.cat.com''\<rparr>"

definition uploaded_world :: world where
  "uploaded_world = fst (upload_route example_env started_world (Some (''cat.png'', ''PNG'')))"

section \<open>Evaluation lemmas\<close>

lemma char_of_nat_eq: "n < 256 \<Longrightarrow> (char_of (n::nat) = c) = (n = of_char c)"
  by (metis char_of_char mod_less of_char_of)

lemma digit_char_eval:
  "digit_char 0 = CHR ''0''" "digit_char 1 = CHR ''1''" "digit_char 2 = CHR ''2''"
  "digit_char 3 = CHR ''3''" "digit_char 4 = CHR ''4''" "digit_char 5 = CHR ''5''"
  "digit_char 6 = CHR ''6''" "digit_char 7 = CHR ''7''" "digit_char 8 = CHR ''8''"
  "digit_char 9 = CHR ''9''" "digit_char (Suc 0) = CHR ''1''"
  unfolding digit_char_def by (simp_all add: char_of_nat_eq)

lemma example_clock_string: "number_to_string 1700000000000 = ''1700000000000''"
  by (simp add: number_to_string.simps digit_char_eval)

lemma example_extname: "extname ''cat.png'' = ''.png''"
  by code_simp

lemma example_storage_filename:
  "storage_filename 1700000000000 ''cat.png'' = ''1700000000000.png''"
  by (simp add: storage_filename_def example_clock_string example_extname)

lemma example_filename_extname: "extname ''1700000000000.png'' = ''.png''"
  by code_simp

lemma example_basename: "basename ''cat.png'' ''.png'' = ''cat''"
  by code_simp

lemma example_id_hex: "toHexString (ObjectId ''abcdefghijkl'') = ''6162636465666768696a6b6c''"
  by (simp add: toHexString_def hex_digit_def)

lemma example_hex_id:
  "new_ObjectId g (Some ''6162636465666768696a6b6c'') = Inr (ObjectId ''abcdefghijkl'')"
  by (simp add: new_ObjectId_def hex_value_def char_of_nat_eq)

section \<open>Facts about the runtime functions\<close>

subsection \<open>Decimal rendering\<close>

lemma of_char_digit_char: "d < 10 \<Longrightarrow> (of_char (digit_char d) :: nat) = 48 + d"
  by (simp add: digit_char_def)

lemma digit_char_inj: "d < 10 \<Longrightarrow> d' < 10 \<Longrightarrow> digit_char d = digit_char d' \<Longrightarrow> d = d'"
  by (metis of_char_digit_char add_left_cancel)

lemma digit_char_not_dot: "d < 10 \<Longrightarrow> digit_char d \<noteq> CHR ''.''"
  using of_char_digit_char [of d] by auto

lemma digit_char_not_slash: "d < 10 \<Longrightarrow> digit_char d \<noteq> CHR ''/''"
  using of_char_digit_char [of d] by auto

lemma number_to_string_not_empty: "number_to_string n \<noteq> []"
  by (subst number_to_string.simps) simp

lemma number_to_string_no_dot: "CHR ''.'' \<notin> set (number_to_string n)"
proof (induction n rule: number_to_string.induct)
  case (1 n)
  show ?case
  proof (cases "n < 10")
    case True
    then show ?thesis
      by (subst number_to_string.simps) (simp add: digit_char_not_dot [symmetric])
  next
    case False
    then show ?thesis
      using 1 digit_char_not_dot [of "n mod 10"]
      by (subst number_to_string.simps) auto
  qed
qed

lemma number_to_string_no_slash: "CHR ''/'' \<notin> set (number_to_string n)"
proof (induction n rule: number_to_string.induct)
  case (1 n)
  show ?case
  proof (cases "n < 10")
    case True
    then show ?thesis
      by (subst number_to_string.simps) (simp add: digit_char_not_slash [symmetric])
  next
    case False
    then show ?thesis
      using 1 digit_char_not_slash [of "n mod 10"]
      by (subst number_to_string.simps) auto
  qed
qed

lemma number_to_string_inj: "number_to_string n = number_to_string m \<Longrightarrow> n = m"
proof (induction n arbitrary: m rule: number_to_string.induct)
  case (1 n)
  note eq = \<open>number_to_string n = number_to_string m\<close>
  show ?case
  proof (cases "n < 10")
    case small_n: True
    show ?thesis
    proof (cases "m < 10")
      case True
      with small_n eq show ?thesis
        by (simp add: number_to_string.simps [of n] number_to_string.simps [of m]
            digit_char_inj)
    next
      case False
      with small_n eq show ?thesis
        using number_to_string_not_empty [of "m div 10"]
        by (simp add: number_to_string.simps [of n] number_to_string.simps [of m])
    qed
  next
    case big_n: False
    show ?thesis
    proof (cases "m < 10")
      case True
      with big_n eq show ?thesis
        by (simp add: number_to_string.simps [of n] number_to_string.simps [of m]
            number_to_string_not_empty)
    next
      case False
      with big_n eq have "number_to_string (n div 10) = number_to_string (m div 10)"
        and "digit_char (n mod 10) = digit_char (m mod 10)"
        by (simp_all add: number_to_string.simps [of n] number_to_string.simps [of m])
      then have "n div 10 = m div 10" and "n mod 10 = m mod 10"
        using "1.IH" [OF big_n] digit_char_inj [of "n mod 10" "m mod 10"] by simp_all
      then show ?thesis
        by (metis div_mult_mod_eq)
    qed
  qed
qed

subsection \<open>Slices\<close>

lemma slice_prefix: "slice (xs @ ys) 0 (int (length xs)) = xs"
  by (simp add: slice_def)

lemma slice_suffix: "slice (xs @ ys) (int (length xs)) (int (length xs) + int (length ys)) = ys"
  by (simp add: slice_def)

subsection \<open>path.extname on a name without separators\<close>

lemma hd_not_member: "xs \<noteq> [] \<Longrightarrow> c \<notin> set xs \<Longrightarrow> hd xs \<noteq> c"
  by (metis hd_in_set)

lemma extname_loop_after_dot:
  assumes "CHR ''/'' \<notin> set cs" and "startDot st \<noteq> -1" and "ext_end st \<noteq> -1"
  shows "extname_loop cs st =
           (if cs = [] then st
            else st\<lparr>preDotState := (if last cs = CHR ''.'' then 1 else -1)\<rparr>)"
  using assms
proof (induction cs arbitrary: st)
  case Nil
  show ?case by simp
next
  case (Cons c cs)
  let ?st2 = "st\<lparr>preDotState := (if c = CHR ''.'' then 1 else -1)\<rparr>"
  have "c \<noteq> CHR ''/''"
    using Cons.prems by auto
  then have step: "extname_loop (c # cs) st = extname_loop cs ?st2"
    using Cons.prems by (cases st) (simp add: Let_def)
  have "extname_loop cs ?st2 =
          (if cs = [] then ?st2
           else ?st2\<lparr>preDotState := (if last cs = CHR ''.'' then 1 else -1)\<rparr>)"
    using Cons.prems by (intro Cons.IH) simp_all
  then show ?case
    unfolding step by simp
qed

lemma extname_loop_before_dot:
  assumes "CHR ''/'' \<notin> set a" and "CHR ''.'' \<notin> set a"
    and "startDot st = -1" and "ext_end st \<noteq> -1"
  shows "extname_loop (a @ rest) st = extname_loop rest st"
  using assms by (induction a) (auto simp: Let_def)

lemma extname_loop_first:
  assumes "cs \<noteq> []" and "hd cs \<noteq> CHR ''/''" and "ext_end st = -1"
  shows "extname_loop cs st =
           extname_loop cs (st\<lparr>ext_matchedSlash := False, ext_end := int (length cs)\<rparr>)"
  using assms by (cases cs) (simp_all add: Let_def add.commute)

lemma extname_no_dot:
  assumes "CHR ''/'' \<notin> set p" and "CHR ''.'' \<notin> set p"
  shows "extname p = []"
proof (cases "p = []")
  case True
  then show ?thesis
    by (simp add: extname_def extname_init_def)
next
  case False
  let ?st = "extname_init\<lparr>ext_matchedSlash := False, ext_end := int (length (rev p))\<rparr>"
  have "extname_loop (rev p) extname_init = extname_loop (rev p) ?st"
    using False assms(1) by (intro extname_loop_first hd_not_member) (auto simp: extname_init_def)
  also have "\<dots> = extname_loop (rev p @ []) ?st"
    by simp
  also have "\<dots> = extname_loop [] ?st"
    using assms False by (intro extname_loop_before_dot) (auto simp: extname_init_def)
  finally show ?thesis
    by (simp add: extname_def extname_init_def)
qed

lemma extname_last_dot:
  assumes "CHR ''/'' \<notin> set pre" and "CHR ''/'' \<notin> set suf" and "CHR ''.'' \<notin> set suf"
  shows "extname (pre @ CHR ''.'' # suf) =
           (if pre = [] \<or> (pre = ''.'' \<and> suf = []) then [] else CHR ''.'' # suf)"
proof -
  let ?p = "pre @ CHR ''.'' # suf"
  let ?st = "extname_init\<lparr>ext_matchedSlash := False, ext_end := int (length (rev ?p))\<rparr>"
  let ?st1 = "?st\<lparr>startDot := int (length pre)\<rparr>"
  have rev_p: "rev ?p = rev suf @ CHR ''.'' # rev pre"
    by simp
  have "extname_loop (rev ?p) extname_init = extname_loop (rev ?p) ?st"
    using assms by (intro extname_loop_first hd_not_member) (auto simp: extname_init_def)
  also have "\<dots> = extname_loop (CHR ''.'' # rev pre) ?st"
    unfolding rev_p using assms
    by (intro extname_loop_before_dot) (auto simp: extname_init_def)
  also have "\<dots> = extname_loop (rev pre) ?st1"
    by (simp add: Let_def extname_init_def)
  also have "\<dots> = (if rev pre = [] then ?st1
       else ?st1\<lparr>preDotState := (if last (rev pre) = CHR ''.'' then 1 else -1)\<rparr>)"
    using assms by (intro extname_loop_after_dot) (auto simp: extname_init_def)
  finally have loop: "extname_loop (rev ?p) extname_init =
      (if pre = [] then ?st1
       else ?st1\<lparr>preDotState := (if hd pre = CHR ''.'' then 1 else -1)\<rparr>)"
    by (simp add: last_rev)
  show ?thesis
  proof (cases "pre = []")
    case True
    then show ?thesis
      using loop by (simp add: extname_def extname_init_def)
  next
    case False
    define stf where "stf =
      \<lparr>startDot = int (length pre), startPart = 0,
       ext_end = int (length pre) + int (length (CHR ''.'' # suf)),
       ext_matchedSlash = False,
       preDotState = (if hd pre = CHR ''.'' then 1 else -1)\<rparr>"
    have fin: "extname_loop (rev ?p) extname_init = stf"
      using False loop by (simp add: stf_def extname_init_def)
    have sel: "startDot stf = int (length pre)" "startPart stf = 0"
      "ext_end stf = int (length pre) + int (length (CHR ''.'' # suf))"
      "preDotState stf = (if hd pre = CHR ''.'' then 1 else -1)"
      by (simp_all add: stf_def)
    have dotdot: "(hd pre = CHR ''.'' \<and> suf = [] \<and> length pre = 1) = (pre = ''.'' \<and> suf = [])"
      using False by (cases pre) auto
    have cond: "(startDot stf = -1 \<or> ext_end stf = -1 \<or> preDotState stf = 0 \<or>
         (preDotState stf = 1 \<and> startDot stf = ext_end stf - 1 \<and>
          startDot stf = startPart stf + 1)) = (pre = ''.'' \<and> suf = [])"
      unfolding sel dotdot [symmetric] by auto
    have "extname ?p = (if pre = ''.'' \<and> suf = [] then []
        else slice ?p (startDot stf) (ext_end stf))"
      unfolding extname_def fin Let_def by (simp only: cond)
    then have "extname ?p = (if pre = ''.'' \<and> suf = [] then []
        else slice ?p (int (length pre)) (int (length pre) + int (length (CHR ''.'' # suf))))"
      by (simp only: sel)
    then show ?thesis
      using False by (simp only: slice_suffix) simp
  qed
qed

subsection \<open>path.basename on a name without separators\<close>

lemma basename_plain_loop_rest:
  assumes "CHR ''/'' \<notin> set cs" and "base_end st \<noteq> -1"
  shows "basename_plain_loop cs st = st"
  using assms by (induction cs) (auto simp: Let_def)

lemma basename_no_suffix:
  assumes "CHR ''/'' \<notin> set p"
  shows "basename p [] = p"
proof (cases "rev p")
  case Nil
  then show ?thesis
    by (simp add: basename_def)
next
  case (Cons c rest)
  define st0 where "st0 =
    \<lparr>base_start = 0, base_end = -1, base_matchedSlash = True,
     extIdx = int (length ([]::string)) - 1, firstNonSlashEnd = -1\<rparr>"
  define st1 where "st1 = st0\<lparr>base_matchedSlash := False, base_end := int (length rest) + 1\<rparr>"
  have "set p = set (c # rest)"
    using Cons by (metis set_rev)
  then have c: "c \<noteq> CHR ''/''" and rest: "CHR ''/'' \<notin> set rest"
    using assms by auto
  have "length p = length (c # rest)"
    using Cons by (metis length_rev)
  then have len: "int (length rest) + 1 = int (length p)"
    by simp
  have "basename_plain_loop (rev p) st0 = basename_plain_loop rest st1"
    unfolding Cons using c by (simp add: Let_def st0_def st1_def)
  also have "\<dots> = st1"
    by (rule basename_plain_loop_rest [OF rest]) (simp add: st1_def)
  finally have loop: "basename_plain_loop (rev p) st0 = st1" .
  have "basename p [] =
      (if base_end st1 = -1 then [] else slice p (base_start st1) (base_end st1))"
    unfolding basename_def st0_def [symmetric] loop Let_def by simp
  also have "\<dots> = slice p 0 (int (length p))"
    by (simp add: st1_def st0_def len)
  also have "\<dots> = p"
    using slice_prefix [of p "[]"] by simp
  finally show ?thesis .
qed

lemma basename_suffix_loop_rest:
  assumes "CHR ''/'' \<notin> set cs" and "firstNonSlashEnd st \<noteq> -1" and "extIdx st < 0"
  shows "basename_suffix_loop suffix cs st = st"
  using assms by (induction cs) (auto simp: Let_def)

lemma basename_suffix_loop_first:
  assumes "cs \<noteq> []" and "hd cs \<noteq> CHR ''/''" and "firstNonSlashEnd st = -1"
  shows "basename_suffix_loop suffix cs st =
           basename_suffix_loop suffix cs
             (st\<lparr>base_matchedSlash := False, firstNonSlashEnd := int (length cs)\<rparr>)"
  using assms by (cases cs) (simp_all add: Let_def add.commute)

lemma basename_suffix_loop_match:
  assumes "CHR ''/'' \<notin> set s1" and "s1 \<noteq> []"
    and "firstNonSlashEnd st \<noteq> -1" and "extIdx st = int (length s1) - 1"
  shows "basename_suffix_loop (s1 @ s2) (rev s1 @ rest) st =
           basename_suffix_loop (s1 @ s2) rest
             (st\<lparr>extIdx := -1, base_end := int (length rest)\<rparr>)"
  using assms
proof (induction s1 arbitrary: s2 st rule: rev_induct)
  case Nil
  then show ?case by simp
next
  case (snoc x xs)
  have x: "x \<noteq> CHR ''/''"
    using snoc.prems(1) by auto
  have idx: "extIdx st = int (length xs)"
    using snoc.prems(4) by simp
  have nth: "((xs @ [x]) @ s2) ! nat (extIdx st) = x"
    by (simp add: idx)
  let ?st' = "st\<lparr>extIdx := int (length xs) - 1\<rparr>"
  show ?case
  proof (cases "xs = []")
    case True
    then show ?thesis
      using x idx snoc.prems(3) by (simp add: Let_def)
  next
    case False
    have step: "basename_suffix_loop ((xs @ [x]) @ s2) (rev (xs @ [x]) @ rest) st =
        basename_suffix_loop ((xs @ [x]) @ s2) (rev xs @ rest) ?st'"
      using x idx nth snoc.prems(3) False by (simp add: Let_def)
    have "basename_suffix_loop (xs @ (x # s2)) (rev xs @ rest) ?st' =
        basename_suffix_loop (xs @ (x # s2)) rest
          (?st'\<lparr>extIdx := -1, base_end := int (length rest)\<rparr>)"
      using snoc.prems(1,3) False by (intro snoc.IH) simp_all
    then show ?thesis
      unfolding step by simp
  qed
qed

lemma basename_strips_suffix:
  assumes "CHR ''/'' \<notin> set pre" and "CHR ''/'' \<notin> set s" and "pre \<noteq> []" and "s \<noteq> []"
  shows "basename (pre @ s) s = pre"
proof -
  let ?p = "pre @ s"
  let ?st0 = "\<lparr>base_start = 0, base_end = -1, base_matchedSlash = True,
               extIdx = int (length s) - 1, firstNonSlashEnd = -1\<rparr>"
  let ?st1 = "?st0\<lparr>base_matchedSlash := False, firstNonSlashEnd := int (length (rev ?p))\<rparr>"
  let ?st2 = "?st1\<lparr>extIdx := -1, base_end := int (length (rev pre))\<rparr>"
  have "basename_suffix_loop s (rev ?p) ?st0 = basename_suffix_loop s (rev ?p) ?st1"
    using assms by (intro basename_suffix_loop_first hd_not_member) auto
  also have "\<dots> = basename_suffix_loop (s @ []) (rev s @ rev pre) ?st1"
    by simp
  also have "\<dots> = basename_suffix_loop (s @ []) (rev pre) ?st2"
    using assms by (intro basename_suffix_loop_match) simp_all
  also have "\<dots> = ?st2"
    using assms by (intro basename_suffix_loop_rest) simp_all
  finally have loop: "basename_suffix_loop s (rev s @ rev pre) ?st0 = ?st2"
    by simp
  have "s \<noteq> ?p"
    using assms(3) by simp
  then have "basename ?p s = slice ?p 0 (int (length pre))"
    using assms(3,4) by (simp add: basename_def loop Let_def)
  then show ?thesis
    by (simp add: slice_prefix)
qed

subsection \<open>The extension of the stored name and the stripped original name\<close>

lemma extname_cases:
  assumes "CHR ''/'' \<notin> set p"
  shows "extname p = [] \<or>
         (\<exists>pre suf. p = pre @ CHR ''.'' # suf \<and> pre \<noteq> [] \<and> CHR ''.'' \<notin> set suf \<and>
            extname p = CHR ''.'' # suf)"
proof (cases "CHR ''.'' \<in> set p")
  case False
  then show ?thesis
    using assms by (simp add: extname_no_dot)
next
  case True
  then obtain pre suf where p: "p = pre @ CHR ''.'' # suf" and suf: "CHR ''.'' \<notin> set suf"
    by (meson split_list_last)
  have "CHR ''/'' \<notin> set pre" and "CHR ''/'' \<notin> set suf"
    using assms p by auto
  then have "extname p =
      (if pre = [] \<or> (pre = ''.'' \<and> suf = []) then [] else CHR ''.'' # suf)"
    unfolding p using suf by (rule extname_last_dot)
  then show ?thesis
    using p suf by (cases "pre = [] \<or> (pre = ''.'' \<and> suf = [])") auto
qed

lemma extname_storage_filename:
  assumes "CHR ''/'' \<notin> set orig"
  shows "extname (storage_filename t orig) = extname orig"
proof -
  let ?d = "number_to_string t"
  from extname_cases [OF assms] show ?thesis
  proof
    assume none: "extname orig = []"
    then show ?thesis
      by (simp add: storage_filename_def extname_no_dot number_to_string_no_dot
          number_to_string_no_slash)
  next
    assume "\<exists>pre suf. orig = pre @ CHR ''.'' # suf \<and> pre \<noteq> [] \<and> CHR ''.'' \<notin> set suf \<and>
        extname orig = CHR ''.'' # suf"
    then obtain pre suf where orig: "orig = pre @ CHR ''.'' # suf"
      and suf: "CHR ''.'' \<notin> set suf" and ext: "extname orig = CHR ''.'' # suf"
      by blast
    have slash: "CHR ''/'' \<notin> set suf"
      using assms orig by auto
    have d: "?d \<noteq> []" "?d \<noteq> ''.''"
      using number_to_string_not_empty [of t] number_to_string_no_dot [of t] by auto
    have "extname (?d @ CHR ''.'' # suf) =
        (if ?d = [] \<or> (?d = ''.'' \<and> suf = []) then [] else CHR ''.'' # suf)"
      using number_to_string_no_slash slash suf by (rule extname_last_dot)
    then show ?thesis
      using d by (simp add: storage_filename_def ext)
  qed
qed

lemma basename_extname:
  assumes "CHR ''/'' \<notin> set orig"
  shows "basename orig (extname orig) = strip_extension orig"
proof -
  from extname_cases [OF assms] show ?thesis
  proof
    assume "extname orig = []"
    then show ?thesis
      using assms by (simp add: basename_no_suffix strip_extension_def)
  next
    assume "\<exists>pre suf. orig = pre @ CHR ''.'' # suf \<and> pre \<noteq> [] \<and> CHR ''.'' \<notin> set suf \<and>
        extname orig = CHR ''.'' # suf"
    then obtain pre suf where orig: "orig = pre @ CHR ''.'' # suf" and pre: "pre \<noteq> []"
      and ext: "extname orig = CHR ''.'' # suf"
      by blast
    have "CHR ''/'' \<notin> set pre" and "CHR ''/'' \<notin> set (CHR ''.'' # suf)"
      using assms orig by auto
    then have "basename (pre @ CHR ''.'' # suf) (CHR ''.'' # suf) = pre"
      using pre by (intro basename_strips_suffix) simp_all
    moreover have "strip_extension orig = pre"
      unfolding strip_extension_def ext by (simp add: orig)
    ultimately show ?thesis
      by (simp add: ext) (simp add: orig)
  qed
qed

subsection \<open>Identifiers and their hexadecimal strings\<close>

lemma hex_value_hex_digit: "k < 16 \<Longrightarrow> hex_value (hex_digit k) = Some k"
proof -
  assume "k < 16"
  then have "k = 0 \<or> k = 1 \<or> k = 2 \<or> k = 3 \<or> k = 4 \<or> k = 5 \<or> k = 6 \<or> k = 7 \<or>
      k = 8 \<or> k = 9 \<or> k = 10 \<or> k = 11 \<or> k = 12 \<or> k = 13 \<or> k = 14 \<or> k = 15"
    by arith
  then show ?thesis
    by (auto simp: hex_digit_def hex_value_def)
qed

lemma fromHex_hex_bytes:
  "fromHex (concat (map (\<lambda>c. [hex_digit (of_char c div 16), hex_digit (of_char c mod 16)]) bs))
     = Some bs"
proof (induction bs)
  case Nil
  show ?case by simp
next
  case (Cons c bs)
  have "(of_char c :: nat) < 256"
    by simp
  then have hi: "(of_char c :: nat) div 16 < 16"
    by arith
  have "char_of (16 * ((of_char c :: nat) div 16) + of_char c mod 16) = c"
    by simp
  then show ?case
    using Cons hi by (simp add: hex_value_hex_digit)
qed

lemma length_toHexString: "length (toHexString oid) = 2 * length (id_bytes oid)"
  unfolding toHexString_def
  by (induction "id_bytes oid" arbitrary: oid)
     (simp_all add: length_concat comp_def sum_list_triv)

text \<open>The consumer rebuilds, from the \<^verbatim>\<open>imageId\<close> of an event, the identifier the
  upload handler serialised into it.\<close>

lemma new_ObjectId_toHexString:
  assumes "length (id_bytes oid) = 12"
  shows "new_ObjectId g (Some (toHexString oid)) = Inr oid"
proof -
  have "fromHex (toHexString oid) = Some (id_bytes oid)"
    unfolding toHexString_def by (rule fromHex_hex_bytes)
  then show ?thesis
    using assms by (simp add: new_ObjectId_def length_toHexString)
qed

section \<open>The query route\<close>

text \<open>
  C10. A \<^verbatim>\<open>GET /image\<close> request with no \<^verbatim>\<open>id\<close> parameter is not answered with
  400: the constructor generates a fresh identifier in place of the missing one, the
  lookup finds nothing under it, and the response is 404 (the database being reachable
  and the generated identifier not being in the collection).
\<close>

theorem get_image_without_id:
  assumes "db_fault e = None"
    and "generated_id e \<notin> set (map doc_id (images w))"
  shows "get_image e w None = Inr \<lparr>status = 404, body = NoBody\<rparr>"
proof -
  have "find (\<lambda>d. doc_id d = generated_id e) (images w) = None"
    using assms(2) by (force simp: find_None_iff)
  then show ?thesis
    using assms(1) by (simp add: get_image_def new_ObjectId_def findOne_def)
qed

theorem get_image_without_id_witness:
  "get_image example_env
     (empty_world\<lparr>images := [\<lparr>doc_id = ObjectId ''000000000001'', doc_imageUrl = None,
                               doc_uploadedAt = None, doc_url = None\<rparr>]\<rparr>) None
   = Inr \<lparr>status = 404, body = NoBody\<rparr>"
  by (rule get_image_without_id) (simp_all add: example_env_def empty_world_def)

text \<open>
  C4, as the specification states it: every malformed \<^verbatim>\<open>id\<close> is answered with
  400. The route has no such answer. For the malformed identifier \<^verbatim>\<open>not-an-id\<close>
  the constructor throws and the handler's promise rejects before any response is
  sent.
\<close>

theorem get_image_malformed_id_counterexample:
  "\<not> isValid ''not-an-id'' \<and>
   get_image example_env empty_world (Some ''not-an-id'') = Inl BSONError"
  by (simp add: isValid_def get_image_def new_ObjectId_def)

text \<open>
  C4, amended: for every malformed \<^verbatim>\<open>id\<close> string (neither twelve characters nor
  twenty-four hexadecimal digits) the handler sends no response at all, so no 400:
  the constructor throws and the handler's promise rejects with that error.
\<close>

theorem get_image_malformed_id:
  assumes "\<not> isValid s"
  shows "get_image e w (Some s) = Inl BSONError"
  using assms by (auto simp: isValid_def get_image_def new_ObjectId_def split: option.splits)

theorem get_image_malformed_id_witness:
  "get_image example_env started_world (Some '''') = Inl BSONError"
  by (rule get_image_malformed_id) (simp add: isValid_def)

text \<open>The statuses the route does send are 200 and 404.\<close>

lemma get_image_statuses:
  "get_image e w q = Inr r \<Longrightarrow> status r = 200 \<or> status r = 404"
  by (auto simp: get_image_def split: sum.splits option.splits)

section \<open>The upload route\<close>

text \<open>
  C6. A \<^verbatim>\<open>POST /upload\<close> request with no file is answered with 400, and nothing
  else happens: the collection, the channel and the upload directory are as before.
\<close>

theorem upload_without_file:
  "upload_route e w None =
     (w, Inr \<lparr>status = 400, body = ErrorBody ''No image uploaded''\<rparr>)"
  by (simp add: upload_route_def upload_single_def post_upload_def)

section \<open>The consumer\<close>

lemma consumer_cases:
  "consumeImageUploadedMessage e w (Json p) =
     (case new_ObjectId (generated_id e) (imageId p) of
        Inl err \<Rightarrow> (w, Inl err)
      | Inr oid \<Rightarrow>
          (case insertOne e (images w)
                  \<lparr>doc_id = oid, doc_imageUrl = imageUrl p, doc_uploadedAt = None,
                   doc_url = url p\<rparr> of
             Inl err \<Rightarrow> (w, Inl err)
           | Inr coll \<Rightarrow> (w\<lparr>images := coll, channel := ack (channel w) (Json p)\<rparr>, Inr ())))"
  by (simp add: consumeImageUploadedMessage_def Let_def split: sum.splits)

lemma example_first_delivery:
  "consumeImageUploadedMessage example_env delivered_world example_event =
     (delivered_world\<lparr>images := [example_doc], channel := empty_broker\<rparr>, Inr ())"
  by (simp add: example_event_def example_message_def consumer_cases example_hex_id
      insertOne_def example_env_def delivered_world_def empty_world_def empty_broker_def ack_def example_doc_def)

lemma example_unreachable_delivery:
  "consumeImageUploadedMessage (example_env\<lparr>db_fault := Some MongoNetworkError\<rparr>)
       delivered_world example_event =
     (delivered_world, Inl MongoNetworkError)"
  by (simp add: example_event_def example_message_def consumer_cases example_hex_id
      insertOne_def example_env_def)

text \<open>
  C3. The consumer acknowledges a message only after the write to the collection has
  succeeded: when the set of unacknowledged messages has changed, the function ran to
  its end and the collection is the result of a successful \<^verbatim>\<open>insertOne\<close>; when
  the function ran to its end, the message was acknowledged after that write; and when
  the write of the document built from the message fails, the function throws that
  error and leaves everything as it was, the message unacknowledged (which is what
  makes the broker deliver it again).
\<close>

theorem ack_only_after_store_write:
  assumes "consumeImageUploadedMessage e w msg = (w', r)"
  shows "(unacked (channel w') \<noteq> unacked (channel w) \<longrightarrow>
            r = Inr () \<and> (\<exists>d. insertOne e (images w) d = Inr (images w')))
       \<and> (r = Inr () \<longrightarrow>
            channel w' = ack (channel w) msg \<and>
            (\<exists>d. insertOne e (images w) d = Inr (images w')))
       \<and> (\<forall>p oid err.
            msg = Json p \<and> new_ObjectId (generated_id e) (imageId p) = Inr oid \<and>
            insertOne e (images w)
              \<lparr>doc_id = oid, doc_imageUrl = imageUrl p, doc_uploadedAt = None,
               doc_url = url p\<rparr> = Inl err
            \<longrightarrow> r = Inl err \<and> w' = w)"
proof (cases msg)
  case Malformed
  then show ?thesis
    using assms by (auto simp: consumeImageUploadedMessage_def)
next
  case (Json p)
  show ?thesis
  proof (cases "new_ObjectId (generated_id e) (imageId p)")
    case (Inl err)
    then show ?thesis
      using assms Json by (auto simp: consumer_cases)
  next
    case (Inr oid)
    then show ?thesis
      using assms Json by (auto simp: consumer_cases split: sum.splits)
  qed
qed

theorem ack_only_after_store_write_witness:
  "consumeImageUploadedMessage example_env delivered_world example_event =
     (delivered_world\<lparr>images := [example_doc], channel := empty_broker\<rparr>, Inr ()) \<and>
   channel (delivered_world\<lparr>images := [example_doc], channel := empty_broker\<rparr>) =
     ack (channel delivered_world) example_event \<and>
   consumeImageUploadedMessage (example_env\<lparr>db_fault := Some MongoNetworkError\<rparr>)
       delivered_world example_event = (delivered_world, Inl MongoNetworkError)"
proof -
  have "channel (delivered_world\<lparr>images := [example_doc], channel := empty_broker\<rparr>) =
     ack (channel delivered_world) example_event"
    using ack_only_after_store_write [OF example_first_delivery] by blast
  then show ?thesis
    using example_first_delivery example_unreachable_delivery by blast
qed

text \<open>
  C7, as the specification states it: for an event without \<^verbatim>\<open>uploadedAt\<close> the
  consumer adds a receipt timestamp of its own. It does not: the document written for
  the example event, which carries none, has no timestamp.
\<close>

theorem consumer_receipt_timestamp_counterexample:
  "uploadedAt example_message = None \<and>
   images (fst (consumeImageUploadedMessage example_env delivered_world
                  (Json example_message))) =
     [\<lparr>doc_id = ObjectId ''abcdefghijkl'',
       doc_imageUrl = Some ''advertise/uploads/1700000000000.png'',
       doc_uploadedAt = None, doc_url = Some ''https://www.cat.com''\<rparr>]"
  using example_first_delivery
  by (simp add: example_event_def example_doc_def example_message_def)

text \<open>
  C7, amended: for every delivered event that carries no \<^verbatim>\<open>uploadedAt\<close> and that
  the consumer handles to its end, the document written has the identifier, the
  \<^verbatim>\<open>imageUrl\<close> and the \<^verbatim>\<open>url\<close> of the event and no timestamp: nothing else
  is added to it.
\<close>

theorem consumer_writes_event_fields:
  assumes "uploadedAt p = None"
    and "consumeImageUploadedMessage e w (Json p) = (w', Inr ())"
  shows "\<exists>oid. new_ObjectId (generated_id e) (imageId p) = Inr oid \<and>
           images w' = images w @
             [\<lparr>doc_id = oid, doc_imageUrl = imageUrl p, doc_uploadedAt = None,
               doc_url = url p\<rparr>]"
  using assms(2)
  by (auto simp: consumer_cases insertOne_def split: sum.splits option.splits if_splits)

theorem consumer_writes_event_fields_witness:
  "\<exists>oid. new_ObjectId (generated_id example_env) (imageId example_message) = Inr oid \<and>
      images (delivered_world\<lparr>images := [example_doc], channel := empty_broker\<rparr>) =
        images delivered_world @
          [\<lparr>doc_id = oid, doc_imageUrl = imageUrl example_message, doc_uploadedAt = None,
            doc_url = url example_message\<rparr>]"
proof (rule consumer_writes_event_fields)
  show "uploadedAt example_message = None"
    by (simp add: example_message_def)
  show "consumeImageUploadedMessage example_env delivered_world (Json example_message) =
      (delivered_world\<lparr>images := [example_doc], channel := empty_broker\<rparr>, Inr ())"
    using example_first_delivery by (simp add: example_event_def)
qed

section \<open>The upload route and the channel\<close>

lemma upload_route_file:
  "upload_route e w (Some (orig, payload)) =
     post_upload e (w\<lparr>uploads := (uploads w)(storage_filename (date_now e) orig \<mapsto> payload)\<rparr>)
       (Some \<lparr>originalname = orig, filename = storage_filename (date_now e) orig\<rparr>)"
  by (simp add: upload_route_def upload_single_def Let_def)

lemma post_upload_inserted:
  assumes "db_fault e = None"
    and "generated_id e \<notin> set (map doc_id (images w))"
  shows "post_upload e w (Some f) =
     (w\<lparr>images := images w @
           [\<lparr>doc_id = generated_id e,
             doc_imageUrl = Some (''advertise/uploads/'' @ filename f),
             doc_uploadedAt = Some (new_date e),
             doc_url = Some (''https://www.'' @
                basename (originalname f) (extname (filename f)) @ ''.com'')\<rparr>],
         channel := sendToQueue (channel w) ''image-uploaded''
           (Json \<lparr>imageId = Some (toHexString (generated_id e)),
                  imageUrl = Some (''advertise/uploads/'' @ filename f),
                  url = Some (''https://www.'' @
                    basename (originalname f) (extname (filename f)) @ ''.com''),
                  uploadedAt = None\<rparr>)\<rparr>,
      Inr \<lparr>status = 201,
           body = UploadedBody ''Image uploaded''
             \<lparr>doc_id = generated_id e,
              doc_imageUrl = Some (''advertise/uploads/'' @ filename f),
              doc_uploadedAt = Some (new_date e),
              doc_url = Some (''https://www.'' @
                 basename (originalname f) (extname (filename f)) @ ''.com'')\<rparr>\<rparr>)"
  using assms by (simp add: post_upload_def insertOne_def Let_def)

text \<open>
  C5. For every upload that carries a file (the database reachable, the generated
  identifier new to the collection), the response has status 201, and the event
  handed to the channel afterwards names, as its \<^verbatim>\<open>imageId\<close>, the identifier of
  the record in the response body.
\<close>

theorem upload_created:
  assumes "db_fault e = None"
    and "generated_id e \<notin> set (map doc_id (images w))"
    and "upload_route e w (Some (orig, payload)) = (w', r)"
  shows "\<exists>img ev. r = Inr \<lparr>status = 201, body = UploadedBody ''Image uploaded'' img\<rparr> \<and>
           published (channel w') =
             published (channel w) @ [([], ''image-uploaded'', Json ev)] \<and>
           imageId ev = Some (toHexString (doc_id img)) \<and>
           img \<in> set (images w')"
proof -
  let ?w1 = "w\<lparr>uploads := (uploads w)(storage_filename (date_now e) orig \<mapsto> payload)\<rparr>"
  have "generated_id e \<notin> set (map doc_id (images ?w1))"
    using assms(2) by simp
  from post_upload_inserted [OF assms(1) this] assms(3)
  show ?thesis
    by (auto simp: upload_route_file sendToQueue_def publish_def)
qed

lemma example_started_channel:
  "channel started_world =
     \<lparr>exchanges = [''image-uploaded'' \<mapsto> ''fanout''], queues = [''amq.gen-1'' \<mapsto> []],
      bindings = [(''amq.gen-1'', ''image-uploaded'')], unacked = [], published = []\<rparr>"
  by (simp add: started_world_def startMicroservice_def assertExchange_def assertQueue_def
      bindQueue_def empty_world_def empty_broker_def)

lemma example_upload:
  "upload_route example_env started_world (Some (''cat.png'', ''PNG'')) =
     (started_world
        \<lparr>uploads := (uploads started_world)(''1700000000000.png'' \<mapsto> ''PNG''),
         images := [example_doc\<lparr>doc_uploadedAt := Some 1700000000004\<rparr>],
         channel := sendToQueue (channel started_world) ''image-uploaded'' example_event\<rparr>,
      Inr \<lparr>status = 201,
           body = UploadedBody ''Image uploaded''
                    (example_doc\<lparr>doc_uploadedAt := Some 1700000000004\<rparr>)\<rparr>)"
proof -
  have env: "db_fault example_env = None" "date_now example_env = 1700000000000"
    "new_date example_env = 1700000000004"
    "generated_id example_env = ObjectId ''abcdefghijkl''"
    by (simp_all add: example_env_def)
  have imgs: "images started_world = []"
    by (simp add: started_world_def startMicroservice_def empty_world_def)
  have fresh: "generated_id example_env \<notin> set (map doc_id (images
      (started_world\<lparr>uploads := (uploads started_world)(''1700000000000.png'' \<mapsto> ''PNG'')\<rparr>)))"
    by (simp add: imgs)
  show ?thesis
    unfolding upload_route_file env example_storage_filename
    by (simp add: post_upload_inserted [OF env(1) fresh] env imgs example_filename_extname
        example_basename example_id_hex example_event_def example_message_def example_doc_def)
qed

theorem upload_created_witness:
  "\<exists>img ev.
      snd (upload_route example_env started_world (Some (''cat.png'', ''PNG''))) =
        Inr \<lparr>status = 201, body = UploadedBody ''Image uploaded'' img\<rparr> \<and>
      published (channel (fst (upload_route example_env started_world
                                 (Some (''cat.png'', ''PNG''))))) =
        published (channel started_world) @ [([], ''image-uploaded'', Json ev)] \<and>
      imageId ev = Some (toHexString (doc_id img)) \<and>
      img \<in> set (images (fst (upload_route example_env started_world
                                 (Some (''cat.png'', ''PNG'')))))"
proof (rule upload_created)
  show "db_fault example_env = None"
    by (simp add: example_env_def)
  show "generated_id example_env \<notin> set (map doc_id (images started_world))"
    by (simp add: started_world_def startMicroservice_def empty_world_def)
  show "upload_route example_env started_world (Some (''cat.png'', ''PNG'')) =
     (fst (upload_route example_env started_world (Some (''cat.png'', ''PNG''))),
      snd (upload_route example_env started_world (Some (''cat.png'', ''PNG''))))"
    by simp
qed

text \<open>The handler hands its event to the default exchange, with the routing key
  \<^verbatim>\<open>image-uploaded\<close>: only a queue of that name can receive it.\<close>

lemma upload_reaches_only_named_queue:
  assumes "q \<noteq> ''image-uploaded''"
  shows "queues (channel (fst (upload_route e w field))) q = queues (channel w) q"
proof (cases field)
  case None
  then show ?thesis
    by (simp add: upload_route_def upload_single_def post_upload_def)
next
  case (Some a)
  obtain orig payload where a: "a = (orig, payload)"
    by (cases a)
  show ?thesis
    using assms unfolding Some a upload_route_file
    by (simp add: post_upload_def Let_def sendToQueue_def publish_def route_def
        split: sum.splits)
qed

text \<open>What the broker does with a message published to the fanout exchange: it
  reaches the queue bound at start-up.\<close>

lemma fanout_publish_reaches_bound_queue:
  "queues (publish (channel started_world) ''image-uploaded'' [] example_event) ''amq.gen-1''
     = Some [example_event]"
  by (simp add: example_started_channel publish_def route_def enqueue_def)

text \<open>
  C1. The specification has every event of the upload route delivered to every queue
  bound to the fanout exchange \<^verbatim>\<open>image-uploaded\<close>, the instance's own consumer
  queue among them. After start-up (the exchange declared as fanout, the anonymous
  queue \<^verbatim>\<open>amq.gen-1\<close> bound to it) and one upload of \<^verbatim>\<open>cat.png\<close>, the event
  has been handed to the default exchange with the routing key \<^verbatim>\<open>image-uploaded\<close>,
  the bound queue is still empty, and the consumer has nothing to consume.
\<close>

theorem upload_event_misses_bound_queue:
  "exchanges (channel uploaded_world) ''image-uploaded'' = Some ''fanout'' \<and>
   bindings (channel uploaded_world) = [(''amq.gen-1'', ''image-uploaded'')] \<and>
   published (channel uploaded_world) = [([], ''image-uploaded'', example_event)] \<and>
   queues (channel uploaded_world) ''amq.gen-1'' = Some [] \<and>
   consume_step example_env uploaded_world ''amq.gen-1'' = None"
  by (simp add: uploaded_world_def example_upload example_started_channel sendToQueue_def
      publish_def route_def consume_step_def deliver_def)

section \<open>Names and URLs of an upload\<close>

text \<open>
  C9. For every upload that carries a file (its original name free of path
  separators, as the middleware delivers it; the database reachable, the generated
  identifier new), the display \<^verbatim>\<open>url\<close> of the record is the original name with
  its extension stripped, embedded in \<^verbatim>\<open>https://www.<name>.com\<close>, and the
  \<^verbatim>\<open>imageUrl\<close> is \<^verbatim>\<open>advertise/uploads/\<close> followed by the generated name, which
  ends with the extension of the original name.
\<close>

theorem upload_display_url:
  assumes "CHR ''/'' \<notin> set orig"
    and "db_fault e = None"
    and "generated_id e \<notin> set (map doc_id (images w))"
  shows "\<exists>img. snd (upload_route e w (Some (orig, payload))) =
           Inr \<lparr>status = 201, body = UploadedBody ''Image uploaded'' img\<rparr> \<and>
         doc_url img = Some (spec_display_url orig) \<and>
         doc_imageUrl img =
           Some (''advertise/uploads/'' @ number_to_string (date_now e) @ extname orig)"
proof -
  let ?w1 = "w\<lparr>uploads := (uploads w)(storage_filename (date_now e) orig \<mapsto> payload)\<rparr>"
  have fresh: "generated_id e \<notin> set (map doc_id (images ?w1))"
    using assms(3) by simp
  have "basename orig (extname (storage_filename (date_now e) orig)) = strip_extension orig"
    using assms(1) by (simp add: extname_storage_filename basename_extname)
  then show ?thesis
    unfolding upload_route_file post_upload_inserted [OF assms(2) fresh]
    by (simp add: spec_display_url_def storage_filename_def)
qed

theorem upload_display_url_witness:
  "\<exists>img. snd (upload_route example_env started_world (Some (''cat.png'', ''PNG''))) =
           Inr \<lparr>status = 201, body = UploadedBody ''Image uploaded'' img\<rparr> \<and>
         doc_url img = Some ''https://www.cat.com'' \<and>
         doc_imageUrl img = Some ''advertise/uploads/1700000000000.png''"
proof -
  have "CHR ''/'' \<notin> set ''cat.png''"
    by simp
  moreover have "db_fault example_env = None"
    by (simp add: example_env_def)
  moreover have "generated_id example_env \<notin> set (map doc_id (images started_world))"
    by (simp add: started_world_def startMicroservice_def empty_world_def)
  moreover have "spec_display_url ''cat.png'' = ''https://www.cat.com''"
    by (simp add: spec_display_url_def strip_extension_def example_extname)
  moreover have "number_to_string (date_now example_env) = ''1700000000000''"
    by (simp add: example_env_def example_clock_string)
  ultimately show ?thesis
    using upload_display_url [of "''cat.png''" example_env started_world "''PNG''"]
    by (simp add: example_extname)
qed

text \<open>
  C8, as the specification states it: two concurrent uploads with the same original
  name are stored under distinct names. The name is the clock reading in milliseconds
  followed by the extension: two uploads of \<^verbatim>\<open>cat.png\<close> handled within the same
  millisecond are both stored as \<^verbatim>\<open>1700000000000.png\<close>, and the payload of the
  second replaces that of the first.
\<close>

theorem same_millisecond_uploads_counterexample:
  "upload_single example_env empty_world (Some (''cat.png'', ''first'')) =
     (empty_world\<lparr>uploads := [''1700000000000.png'' \<mapsto> ''first'']\<rparr>,
      Some \<lparr>originalname = ''cat.png'', filename = ''1700000000000.png''\<rparr>) \<and>
   upload_single example_env
       (empty_world\<lparr>uploads := [''1700000000000.png'' \<mapsto> ''first'']\<rparr>)
       (Some (''cat.png'', ''second'')) =
     (empty_world\<lparr>uploads := [''1700000000000.png'' \<mapsto> ''second'']\<rparr>,
      Some \<lparr>originalname = ''cat.png'', filename = ''1700000000000.png''\<rparr>)"
  by (simp add: upload_single_def example_env_def example_storage_filename empty_world_def
      Let_def)

text \<open>
  C8, amended: two uploads with the same original name are stored under distinct
  names exactly when their clock readings, in milliseconds, differ.
\<close>

theorem storage_names_distinct_iff:
  "(storage_filename t1 orig \<noteq> storage_filename t2 orig) = (t1 \<noteq> t2)"
  using number_to_string_inj by (auto simp: storage_filename_def)

section \<open>Delivering an event twice\<close>

text \<open>
  C2, as the specification states it: the second delivery of an event is a no-op of an
  idempotent upsert. The write is a plain insert: delivered a second time, the example
  event makes \<^verbatim>\<open>insertOne\<close> reject with the duplicate-key error, the consumer throws
  it and does not acknowledge.
\<close>

theorem second_delivery_counterexample:
  "consumeImageUploadedMessage example_env
     (fst (consumeImageUploadedMessage example_env delivered_world example_event))
     example_event
   = (delivered_world\<lparr>images := [example_doc], channel := empty_broker\<rparr>,
      Inl MongoDuplicateKey)"
  by (simp add: example_first_delivery)
     (simp add: example_event_def example_message_def consumer_cases example_hex_id
       insertOne_def example_env_def example_doc_def)

lemma example_second_delivery:
  "consumeImageUploadedMessage example_env
       (delivered_world\<lparr>images := [example_doc], channel := empty_broker\<rparr>)
       (Json example_message) =
     (delivered_world\<lparr>images := [example_doc], channel := empty_broker\<rparr>,
      Inl MongoDuplicateKey)"
  by (simp add: example_message_def consumer_cases example_hex_id insertOne_def
      example_env_def example_doc_def)

text \<open>
  C2, amended: take an event whose \<^verbatim>\<open>imageId\<close> is a string the identifier
  constructor accepts, a collection that holds at most one document with that
  identifier (which the unique index on \<^verbatim>\<open>_id\<close> guarantees), and deliver the
  event twice with the database reachable. Then the collection ends with exactly one
  document with that identifier. The write is a plain insert, not an upsert: the second
  delivery is rejected as a duplicate, the consumer throws the duplicate-key error
  instead of acknowledging, and nothing changes. The first delivery inserts the
  document and acknowledges when the identifier is not stored yet, and is rejected in
  the same way when it already is (the event of the instance's own upload).
\<close>

theorem second_delivery_rejected:
  assumes "imageId p = Some s"
    and "new_ObjectId g (Some s) = Inr oid"
    and "length (filter (\<lambda>d. doc_id d = oid) (images w)) \<le> 1"
    and "db_fault e1 = None"
    and "db_fault e2 = None"
    and "consumeImageUploadedMessage e1 w (Json p) = (w1, r1)"
    and "consumeImageUploadedMessage e2 w1 (Json p) = (w2, r2)"
  shows "length (filter (\<lambda>d. doc_id d = oid) (images w2)) = 1 \<and>
         r2 = Inl MongoDuplicateKey \<and> w2 = w1 \<and>
         (if oid \<in> set (map doc_id (images w))
          then r1 = Inl MongoDuplicateKey \<and> w1 = w
          else r1 = Inr () \<and>
               images w1 = images w @
                 [\<lparr>doc_id = oid, doc_imageUrl = imageUrl p, doc_uploadedAt = None,
                   doc_url = url p\<rparr>] \<and>
               channel w1 = ack (channel w) (Json p))"
proof -
  let ?d = "\<lparr>doc_id = oid, doc_imageUrl = imageUrl p, doc_uploadedAt = None, doc_url = url p\<rparr>"
  have oid: "new_ObjectId (generated_id e) (imageId p) = Inr oid" for e
    using assms(1,2) by (simp add: new_ObjectId_def)
  show ?thesis
  proof (cases "oid \<in> set (map doc_id (images w))")
    case True
    then have first: "w1 = w" "r1 = Inl MongoDuplicateKey"
      using assms(4,6) by (simp_all add: consumer_cases oid insertOne_def)
    then have second: "w2 = w" "r2 = Inl MongoDuplicateKey"
      using True assms(5,7) by (simp_all add: consumer_cases oid insertOne_def)
    have "filter (\<lambda>d. doc_id d = oid) (images w) \<noteq> []"
      using True by (auto simp: filter_empty_conv)
    then have "length (filter (\<lambda>d. doc_id d = oid) (images w)) = 1"
      using assms(3) by (cases "filter (\<lambda>d. doc_id d = oid) (images w)") simp_all
    then show ?thesis
      using True first second by simp
  next
    case False
    then have first: "r1 = Inr ()" "images w1 = images w @ [?d]"
      "channel w1 = ack (channel w) (Json p)"
      using assms(4,6) by (auto simp: consumer_cases oid insertOne_def)
    then have second: "w2 = w1" "r2 = Inl MongoDuplicateKey"
      using assms(5,7) by (simp_all add: consumer_cases oid insertOne_def)
    have "filter (\<lambda>d. doc_id d = oid) (images w) = []"
      using False by (auto simp: filter_empty_conv)
    then have "length (filter (\<lambda>d. doc_id d = oid) (images w1)) = 1"
      by (simp add: first(2))
    then show ?thesis
      using False first second by simp
  qed
qed

lemma example_loop_back_delivery:
  "consumeImageUploadedMessage example_env uploaded_world (Json example_message) =
     (uploaded_world, Inl MongoDuplicateKey)"
proof -
  have "images uploaded_world = [example_doc\<lparr>doc_uploadedAt := Some 1700000000004\<rparr>]"
    by (simp add: uploaded_world_def example_upload)
  then show ?thesis
    by (simp add: consumer_cases example_message_def example_hex_id insertOne_def
        example_env_def example_doc_def)
qed

theorem second_delivery_rejected_witness:
  "length (filter (\<lambda>d. doc_id d = ObjectId ''abcdefghijkl'')
      (images (delivered_world\<lparr>images := [example_doc], channel := empty_broker\<rparr>))) = 1 \<and>
   consumeImageUploadedMessage example_env
       (delivered_world\<lparr>images := [example_doc], channel := empty_broker\<rparr>)
       (Json example_message) =
     (delivered_world\<lparr>images := [example_doc], channel := empty_broker\<rparr>,
      Inl MongoDuplicateKey) \<and>
   length (filter (\<lambda>d. doc_id d = ObjectId ''abcdefghijkl'') (images uploaded_world)) = 1 \<and>
   consumeImageUploadedMessage example_env uploaded_world (Json example_message) =
     (uploaded_world, Inl MongoDuplicateKey)"
proof -
  let ?w1 = "delivered_world\<lparr>images := [example_doc], channel := empty_broker\<rparr>"
  have id: "imageId example_message = Some ''6162636465666768696a6b6c''"
    by (simp add: example_message_def)
  have env: "db_fault example_env = None"
    by (simp add: example_env_def)
  have run1: "consumeImageUploadedMessage example_env delivered_world (Json example_message) =
      (?w1, Inr ())"
    using example_first_delivery by (simp add: example_event_def)
  have run2: "consumeImageUploadedMessage example_env ?w1 (Json example_message) =
      (?w1, Inl MongoDuplicateKey)"
    by (rule example_second_delivery)
  have none: "length (filter (\<lambda>d. doc_id d = ObjectId ''abcdefghijkl'')
      (images delivered_world)) \<le> 1"
    by (simp add: delivered_world_def empty_world_def)
  have one: "length (filter (\<lambda>d. doc_id d = ObjectId ''abcdefghijkl'')
      (images uploaded_world)) \<le> 1"
    by (simp add: uploaded_world_def example_upload example_doc_def)
  have fresh: "length (filter (\<lambda>d. doc_id d = ObjectId ''abcdefghijkl'') (images ?w1)) = 1"
    using second_delivery_rejected [OF id example_hex_id none env env run1 run2] by blast
  have looped: "length (filter (\<lambda>d. doc_id d = ObjectId ''abcdefghijkl'')
      (images uploaded_world)) = 1"
    using second_delivery_rejected
      [OF id example_hex_id one env env example_loop_back_delivery example_loop_back_delivery]
    by blast
  show ?thesis
    using fresh looped run2 example_loop_back_delivery by blast
qed

text \<open>An event whose \<^verbatim>\<open>imageId\<close> the constructor refuses is never written, however
  often it is delivered: the consumer throws before it reaches the collection.\<close>

lemma consumer_malformed_id:
  assumes "imageId p = Some s" and "\<not> isValid s"
  shows "consumeImageUploadedMessage e w (Json p) = (w, Inl BSONError)"
  using assms
  by (auto simp: consumer_cases isValid_def new_ObjectId_def split: option.splits)

end
